theory Spec2Isabelle
  imports Complex_Main "HOL-Library.Multiset"
begin

section \<open>The movie table\<close>

text \<open>
  The class \<^verbatim>\<open>Movie\<close> of \<^verbatim>\<open>main.py\<close> declares one table. A row is a record with the
  columns of the class. The primary key is called \<open>movie_id\<close> here, since \<open>id\<close> is the
  identity function of HOL. The columns declared \<^verbatim>\<open>nullable=True\<close> (rating, ranking and
  review) are options, \<open>None\<close> standing for NULL.

  Ratings are the values the \<^verbatim>\<open>Float\<close> column holds: the floating-point numbers, the
  infinities included, but no NaN, which SQLite stores as NULL. The ranking only compares
  them, so they are taken from any linearly ordered type \<open>'r\<close>.

  The year column is declared \<^verbatim>\<open>Integer\<close>, but \<^verbatim>\<open>find_movie\<close> hands it a string, and
  SQLite stores in such a column an integer, a floating-point number or the text itself,
  depending on the text (see \<open>integer_affinity\<close> below). \<open>'r column_value\<close> is what the
  column can hold.
\<close>

datatype 'r column_value = IntegerValue int | RealValue 'r | TextValue string

record 'r Movie =
  movie_id :: int
  title :: string
  year :: "'r column_value"
  description :: string
  rating :: "'r option"
  ranking :: "int option"
  review :: "string option"
  img_url :: string

text \<open>
  The table is the list of its rows in row-id order. The primary key and the
  \<^verbatim>\<open>unique=True\<close> of the title column make ids and titles pairwise distinct.
\<close>

type_synonym 'r store = "'r Movie list"

definition wf_store :: "'r store \<Rightarrow> bool" where
  "wf_store s = (distinct (map movie_id s) \<and> distinct (map title s))"

section \<open>The collection read: \<^verbatim>\<open>home\<close>\<close>

text \<open>
  \<^verbatim>\<open>order_by(Movie.rating.desc())\<close> is answered by SQLite, where NULL compares below every
  value, so that a descending order puts the rows without a rating last.
  \<open>rating_desc a b\<close> says that a row rated \<open>a\<close> may stand before a row rated \<open>b\<close>.
\<close>

fun rating_desc :: "'r::linorder option \<Rightarrow> 'r option \<Rightarrow> bool" where
  "rating_desc (Some a) (Some b) = (b \<le> a)"
| "rating_desc (Some a) None = True"
| "rating_desc None (Some b) = False"
| "rating_desc None None = True"

text \<open>
  The query is modelled as a stable insertion sort of the table: rows with equal ratings
  keep their table order. The sort reads the rating column only.
\<close>

fun insert_desc :: "('r::linorder) Movie \<Rightarrow> 'r Movie list \<Rightarrow> 'r Movie list" where
  "insert_desc m [] = [m]"
| "insert_desc m (x # xs) =
     (if rating_desc (rating m) (rating x) then m # x # xs else x # insert_desc m xs)"

definition order_by_rating_desc :: "('r::linorder) store \<Rightarrow> 'r Movie list" where
  "order_by_rating_desc s = foldr insert_desc s []"

text \<open>
  \<^verbatim>\<open>db.session.commit()\<close> after an attribute assignment writes the object back to its row,
  found by primary key.
\<close>

definition commit_row :: "'r Movie \<Rightarrow> 'r store \<Rightarrow> 'r store" where
  "commit_row m s = map (\<lambda>r. if movie_id r = movie_id m then m else r) s"

text \<open>
  The loop of \<^verbatim>\<open>home\<close>: each object of the result list gets the current rank and is
  committed, and the rank goes up by one. The function returns the objects as the
  template sees them, and the table after the last commit.
\<close>

fun rank_loop :: "int \<Rightarrow> 'r Movie list \<Rightarrow> 'r store \<Rightarrow> 'r Movie list \<times> 'r store" where
  "rank_loop rank [] s = ([], s)"
| "rank_loop rank (movie # rest) s =
     (let movie' = movie\<lparr>ranking := Some rank\<rparr>;
          (rest', s') = rank_loop (rank + 1) rest (commit_row movie' s)
      in (movie' # rest', s'))"

definition home :: "('r::linorder) store \<Rightarrow> 'r Movie list \<times> 'r store" where
  "home s = rank_loop 1 (order_by_rating_desc s) s"

text \<open>
  Two functions used to state what the loop computes. \<open>with_ranks k ms\<close> is the list
  \<open>ms\<close> with the ranks \<open>k\<close>, \<open>k + 1\<close>, ... written into it, and \<open>row_of L r\<close> is the object
  of \<open>L\<close> that has the primary key of the row \<open>r\<close> (the row itself when there is none).
\<close>

fun with_ranks :: "int \<Rightarrow> 'r Movie list \<Rightarrow> 'r Movie list" where
  "with_ranks k [] = []"
| "with_ranks k (m # ms) = m\<lparr>ranking := Some k\<rparr> # with_ranks (k + 1) ms"

definition row_of :: "'r Movie list \<Rightarrow> 'r Movie \<Rightarrow> 'r Movie" where
  "row_of L r = (case find (\<lambda>m. movie_id m = movie_id r) L of Some m \<Rightarrow> m | None \<Rightarrow> r)"

section \<open>Exceptions, requests and forms\<close>

text \<open>
  The exceptions that the views let escape. \<open>NotFound\<close> is the 404 that
  \<^verbatim>\<open>db.get_or_404\<close> aborts with, \<open>IntegrityError\<close> is raised by the commit when a
  \<^verbatim>\<open>unique\<close> or \<^verbatim>\<open>nullable=False\<close> constraint of the table is violated, and
  \<open>RequestException\<close> stands for whatever \<^verbatim>\<open>requests.get\<close> raises when the call itself
  fails. \<open>MethodNotAllowed\<close> is the 405 of a route that does not list the method.
\<close>

datatype error =
    NotFound
  | IntegrityError
  | RequestException
  | JSONDecodeError
  | KeyError string
  | TypeError
  | AttributeError
  | ValueError
  | IndexError
  | MethodNotAllowed

datatype http_method = GET | HEAD | OPTIONS | POST | PUT | PATCH | DELETE

text \<open>
  What a view reads from the request. The query parameter \<^verbatim>\<open>id\<close> is read by three views.
  \<^verbatim>\<open>/edit\<close> and \<^verbatim>\<open>/delete\<close> hand it to the database as a primary key: \<open>args_row_id\<close> is the
  integer it denotes there, \<open>None\<close> when the parameter is missing or denotes no integer.
  \<^verbatim>\<open>/find\<close> uses the text itself: \<open>args_id\<close>. \<open>form\<close> is the submitted form data by field
  name, and \<open>csrf_ok\<close> says whether the token check of \<^verbatim>\<open>FlaskForm\<close> passes.
\<close>

record request =
  req_method :: http_method
  args_row_id :: "int option"
  args_id :: "string option"
  csrf_ok :: bool
  form :: "string \<rightharpoonup> string"

text \<open>
  A form class is the list of its data fields with their validators. \<^verbatim>\<open>RateMovieForm\<close>
  gives no validator to either field; \<^verbatim>\<open>FindMovieForm\<close> requires the title.
\<close>

datatype validator = DataRequired

type_synonym form_class = "(string \<times> validator list) list"

definition RateMovieForm :: form_class where
  "RateMovieForm = [(''rating'', []), (''review'', [])]"

definition FindMovieForm :: form_class where
  "FindMovieForm = [(''title'', [DataRequired])]"

text \<open>
  \<^verbatim>\<open>DataRequired\<close> accepts a value that is present, not empty, and not empty after
  \<^verbatim>\<open>strip()\<close>. Characters are read as code points below 256, of which Python counts these
  as white space.
\<close>

definition isspace :: "char \<Rightarrow> bool" where
  "isspace c = (of_char c \<in> {9, 10, 11, 12, 13, 28, 29, 30, 31, 32, 133, 160 :: nat})"

definition strip :: "string \<Rightarrow> string" where
  "strip s = rev (dropWhile isspace (rev (dropWhile isspace s)))"

fun run_validator :: "validator \<Rightarrow> string option \<Rightarrow> bool" where
  "run_validator DataRequired None = False"
| "run_validator DataRequired (Some s) = (s \<noteq> [] \<and> strip s \<noteq> [])"

definition is_submitted :: "request \<Rightarrow> bool" where
  "is_submitted req = (req_method req \<in> {POST, PUT, PATCH, DELETE})"

definition validate :: "form_class \<Rightarrow> request \<Rightarrow> bool" where
  "validate fc req =
     (csrf_ok req \<and> list_all (\<lambda>(name, vs). list_all (\<lambda>v. run_validator v (form req name)) vs) fc)"

definition validate_on_submit :: "form_class \<Rightarrow> request \<Rightarrow> bool" where
  "validate_on_submit fc req = (is_submitted req \<and> validate fc req)"

text \<open>
  What the views on a record return: a rendered template with its arguments, or a
  redirect. \<open>AutomaticOptions\<close> is the answer Flask itself gives to OPTIONS.
\<close>

datatype 'r response =
    RenderEdit "'r Movie"
  | RenderDelete "'r Movie" string
  | RedirectHome
  | RedirectRate int
  | AutomaticOptions

section \<open>Rating and deleting a record\<close>

text \<open>\<^verbatim>\<open>db.get_or_404(Movie, movie_id)\<close>: the row with that primary key, or a 404.\<close>

definition get_or_404 :: "'r store \<Rightarrow> int option \<Rightarrow> error + 'r Movie" where
  "get_or_404 s key =
     (case key of
        None \<Rightarrow> Inl NotFound
      | Some i \<Rightarrow>
          (case find (\<lambda>r. movie_id r = i) s of
             None \<Rightarrow> Inl NotFound
           | Some m \<Rightarrow> Inr m))"

text \<open>
  A Python float is a number (of the ordered type \<open>'r\<close>) or NaN. Written to the
  \<^verbatim>\<open>Float\<close> column, a number is stored as it is and NaN is stored as NULL.
\<close>

datatype 'r pyfloat = Number 'r | NaN

definition real_column :: "'r pyfloat \<Rightarrow> 'r option" where
  "real_column v = (case v of Number r \<Rightarrow> Some r | NaN \<Rightarrow> None)"

text \<open>
  \<^verbatim>\<open>float(form.rating.data)\<close>. A field that was not submitted has the data \<^verbatim>\<open>None\<close>, on
  which \<^verbatim>\<open>float\<close> raises a \<^verbatim>\<open>TypeError\<close>. What \<^verbatim>\<open>float\<close> makes of a text is Python's
  business and a parameter of the model: \<open>to_float text\<close> is the float returned, or the
  exception raised.
\<close>

definition py_float ::
  "(string \<Rightarrow> error + 'r pyfloat) \<Rightarrow> string option \<Rightarrow> error + 'r pyfloat" where
  "py_float to_float d = (case d of None \<Rightarrow> Inl TypeError | Some text \<Rightarrow> to_float text)"

text \<open>
  The view \<^verbatim>\<open>rate_movie\<close>. An exception leaves the session uncommitted, so the table is
  the one before the request.
\<close>

definition rate_movie ::
  "(string \<Rightarrow> error + 'r pyfloat) \<Rightarrow> 'r store \<Rightarrow> request \<Rightarrow>
     (error + 'r response) \<times> 'r store" where
  "rate_movie to_float s req =
     (case get_or_404 s (args_row_id req) of
        Inl e \<Rightarrow> (Inl e, s)
      | Inr movie \<Rightarrow>
          if validate_on_submit RateMovieForm req then
            (case py_float to_float (form req ''rating'') of
               Inl e \<Rightarrow> (Inl e, s)
             | Inr v \<Rightarrow>
                 (Inr RedirectHome,
                  commit_row (movie\<lparr>rating := real_column v, review := form req ''review''\<rparr>) s))
          else (Inr (RenderEdit movie), s))"

text \<open>\<^verbatim>\<open>db.session.delete(movie)\<close> and the commit remove the row with the object's key.\<close>

definition delete_row :: "'r Movie \<Rightarrow> 'r store \<Rightarrow> 'r store" where
  "delete_row m s = filter (\<lambda>r. movie_id r \<noteq> movie_id m) s"

definition delete_movie :: "'r store \<Rightarrow> request \<Rightarrow> (error + 'r response) \<times> 'r store" where
  "delete_movie s req =
     (case get_or_404 s (args_row_id req) of
        Inl e \<Rightarrow> (Inl e, s)
      | Inr movie \<Rightarrow>
          if req_method req = POST then (Inr RedirectHome, delete_row movie s)
          else (Inr (RenderDelete movie ''You are about to delete this movie.''), s))"

text \<open>
  The route of \<^verbatim>\<open>delete_movie\<close> is declared as \<^verbatim>\<open>@app.route("/delete")\<close>, without a
  \<^verbatim>\<open>methods\<close> argument, unlike \<^verbatim>\<open>/add\<close> and \<^verbatim>\<open>/edit\<close>. Flask then lets GET, HEAD and
  OPTIONS through, answers OPTIONS by itself, and answers every other method with a 405
  before the view runs.
\<close>

definition route_delete :: "'r store \<Rightarrow> request \<Rightarrow> (error + 'r response) \<times> 'r store" where
  "route_delete s req =
     (if req_method req \<notin> {GET, HEAD, OPTIONS} then (Inl MethodNotAllowed, s)
      else if req_method req = OPTIONS then (Inr AutomaticOptions, s)
      else delete_movie s req)"

section \<open>The provider: \<^verbatim>\<open>add_movie\<close> and \<^verbatim>\<open>find_movie\<close>\<close>

text \<open>
  The module constants. The key is read from the environment when the module is loaded, so
  it is a parameter.
\<close>

record config =
  MOVIE_DB_SEARCH_URL :: string
  MOVIE_DB_INFO_URL :: string
  MOVIE_DB_IMAGE_URL :: string
  MOVIE_DB_API_KEY :: string

definition module_config :: "string \<Rightarrow> config" where
  "module_config api_key =
     \<lparr>MOVIE_DB_SEARCH_URL = ''https://api.themoviedb.org/3/search/movie'',
      MOVIE_DB_INFO_URL = ''https://api.themoviedb.org/3/movie'',
      MOVIE_DB_IMAGE_URL = ''https://image.tmdb.org/t/p/w500'',
      MOVIE_DB_API_KEY = api_key\<rparr>"

text \<open>
  The outcome of one \<^verbatim>\<open>requests.get\<close>: the call raises, or it returns a response with a
  status code and a body. The body is not JSON, or it is JSON but no object, or it is an
  object, read as a dictionary. The network is a function from the URL and the query
  parameters of a call to its outcome.
\<close>

datatype 'v body = NotJson | NotDict | Dict "string \<rightharpoonup> 'v"

datatype 'v http_result = Raised | Response nat "'v body"

type_synonym call = "string \<times> (string \<times> string) list"

type_synonym 'v network = "string \<Rightarrow> (string \<times> string) list \<Rightarrow> 'v http_result"

text \<open>\<^verbatim>\<open>response.json()\<close> and the subscript \<^verbatim>\<open>data[key]\<close>.\<close>

definition response_json :: "'v body \<Rightarrow> error + 'v body" where
  "response_json b = (case b of NotJson \<Rightarrow> Inl JSONDecodeError | _ \<Rightarrow> Inr b)"

definition getitem :: "'v body \<Rightarrow> string \<Rightarrow> error + 'v" where
  "getitem data key =
     (case data of
        Dict d \<Rightarrow> (case d key of None \<Rightarrow> Inl (KeyError key) | Some v \<Rightarrow> Inr v)
      | _ \<Rightarrow> Inl TypeError)"

datatype 'v add_response = RenderSelect 'v | RenderAdd

text \<open>
  The entry \<^verbatim>\<open>"query": movie_title\<close> of the parameters. \<^verbatim>\<open>requests\<close> leaves out a
  parameter whose value is \<^verbatim>\<open>None\<close>; a validated form always has a title.
\<close>

definition query_param :: "string option \<Rightarrow> (string \<times> string) list" where
  "query_param d = (case d of None \<Rightarrow> [] | Some movie_title \<Rightarrow> [(''query'', movie_title)])"

text \<open>
  The view \<^verbatim>\<open>add_movie\<close>. It does not touch the table. The second component lists the
  calls made to the provider. The status code of the response is not read.
\<close>

definition add_movie ::
  "config \<Rightarrow> 'v network \<Rightarrow> request \<Rightarrow> (error + 'v add_response) \<times> call list" where
  "add_movie cfg requests_get req =
     (if validate_on_submit FindMovieForm req then
        (let url = MOVIE_DB_SEARCH_URL cfg;
             params = (''api_key'', MOVIE_DB_API_KEY cfg) # query_param (form req ''title'')
         in (case requests_get url params of
               Raised \<Rightarrow> (Inl RequestException, [(url, params)])
             | Response status b \<Rightarrow>
                 (case response_json b of
                    Inl e \<Rightarrow> (Inl e, [(url, params)])
                  | Inr json \<Rightarrow>
                      (case getitem json ''results'' of
                         Inl e \<Rightarrow> (Inl e, [(url, params)])
                       | Inr data \<Rightarrow> (Inr (RenderSelect data), [(url, params)])))))
      else (Inr RenderAdd, []))"

text \<open>
  \<^verbatim>\<open>str.split\<close> with a separator of one character, and the subscript \<^verbatim>\<open>[0]\<close> of a list.
\<close>

fun str_split :: "char \<Rightarrow> string \<Rightarrow> string list" where
  "str_split sep [] = [[]]"
| "str_split sep (c # cs) =
     (if c = sep then [] # str_split sep cs
      else (case str_split sep cs of [] \<Rightarrow> [[c]] | w # ws \<Rightarrow> (c # w) # ws))"

definition first_item :: "'a list \<Rightarrow> error + 'a" where
  "first_item xs = (case xs of [] \<Rightarrow> Inl IndexError | x # _ \<Rightarrow> Inr x)"

text \<open>
  The fields of the provider's detail response that the view reads are strings or null:
  a value is \<open>Some text\<close> or \<open>None\<close>. A null in an f-string is formatted as \<^verbatim>\<open>None\<close>, and
  a null has no method \<^verbatim>\<open>split\<close>.
\<close>

definition format_value :: "string option \<Rightarrow> string" where
  "format_value v = (case v of None \<Rightarrow> ''None'' | Some text \<Rightarrow> text)"

definition split_value :: "string option \<Rightarrow> error + string list" where
  "split_value v = (case v of None \<Rightarrow> Inl AttributeError | Some text \<Rightarrow> Inr (str_split CHR ''-'' text))"

text \<open>
  The object built by \<^verbatim>\<open>Movie(title=..., year=..., img_url=..., description=...)\<close>, before
  it has a key. The keyword arguments are evaluated in the order they are written.
\<close>

record new_movie =
  new_title :: "string option"
  new_year :: string
  new_img_url :: string
  new_description :: "string option"

definition build_movie :: "config \<Rightarrow> string option body \<Rightarrow> error + new_movie" where
  "build_movie cfg data =
     (case getitem data ''title'' of
        Inl e \<Rightarrow> Inl e
      | Inr t \<Rightarrow>
     (case getitem data ''release_date'' of
        Inl e \<Rightarrow> Inl e
      | Inr release_date \<Rightarrow>
     (case split_value release_date of
        Inl e \<Rightarrow> Inl e
      | Inr parts \<Rightarrow>
     (case first_item parts of
        Inl e \<Rightarrow> Inl e
      | Inr y \<Rightarrow>
     (case getitem data ''poster_path'' of
        Inl e \<Rightarrow> Inl e
      | Inr poster_path \<Rightarrow>
     (case getitem data ''overview'' of
        Inl e \<Rightarrow> Inl e
      | Inr overview \<Rightarrow>
          Inr \<lparr>new_title = t, new_year = y,
               new_img_url = MOVIE_DB_IMAGE_URL cfg @ format_value poster_path,
               new_description = overview\<rparr>))))))"

text \<open>
  What SQLite does for the insert is not in \<^verbatim>\<open>main.py\<close>. Two parts of it cannot be
  computed here and are parameters of the model.

  \<^item> \<open>numeric_affinity txt\<close> is what an \<^verbatim>\<open>Integer\<close> column stores for a text that is not a
    plain string of digits with a value in the 64-bit range: an integer or a
    floating-point number when the text is another spelling of a number, the text itself
    otherwise.
  \<^item> \<open>random_rowid ids\<close> is the row id SQLite settles on when the largest id in use is
    the largest possible one, \<open>2^63 - 1\<close>: it then draws ids at random until one is not in
    use. That it gives up after too many draws that are in use is not modelled.
\<close>

record 'r sqlite =
  numeric_affinity :: "string \<Rightarrow> 'r column_value"
  random_rowid :: "int list \<Rightarrow> int"

text \<open>
  A non-empty string of decimal digits whose value fits a signed 64-bit integer is stored
  in the \<^verbatim>\<open>Integer\<close> column as that integer: \<^verbatim>\<open>2021\<close> as 2021, \<^verbatim>\<open>0021\<close> as 21.
\<close>

definition max_rowid :: int where
  "max_rowid = 2 ^ 63 - 1"

definition is_digit :: "char \<Rightarrow> bool" where
  "is_digit c = (48 \<le> (of_char c :: nat) \<and> (of_char c :: nat) \<le> 57)"

definition digits_value :: "string \<Rightarrow> nat" where
  "digits_value txt = foldl (\<lambda>n c. 10 * n + (of_char c - 48)) 0 txt"

definition integer_affinity :: "'r sqlite \<Rightarrow> string \<Rightarrow> 'r column_value" where
  "integer_affinity db txt =
     (if txt \<noteq> [] \<and> list_all is_digit txt \<and> int (digits_value txt) \<le> max_rowid
      then IntegerValue (int (digits_value txt))
      else numeric_affinity db txt)"

text \<open>
  The row id of a new row: 1 in an empty table, else one more than the largest id in use,
  unless that is the largest possible id.
\<close>

definition next_id :: "'r sqlite \<Rightarrow> 'r store \<Rightarrow> int" where
  "next_id db s =
     (case s of
        [] \<Rightarrow> 1
      | r # rs \<Rightarrow>
          (let largest = fold max (map movie_id rs) (movie_id r)
           in if largest < max_rowid then largest + 1 else random_rowid db (map movie_id s)))"

text \<open>
  \<^verbatim>\<open>db.session.add(new_movie)\<close> and the commit. The insert fails when a column declared
  \<^verbatim>\<open>nullable=False\<close> would be NULL or when the title is already in the table. Otherwise the
  new row has the next row id, the year as the \<^verbatim>\<open>Integer\<close> column stores it, and no
  rating, ranking or review, and it stands in the table at the place of its id. The
  function returns the table and the new key.
\<close>

definition add_commit :: "'r sqlite \<Rightarrow> 'r store \<Rightarrow> new_movie \<Rightarrow> error + ('r store \<times> int)" where
  "add_commit db s n =
     (case new_title n of
        None \<Rightarrow> Inl IntegrityError
      | Some t \<Rightarrow>
     (case new_description n of
        None \<Rightarrow> Inl IntegrityError
      | Some d \<Rightarrow>
          if t \<in> set (map title s) then Inl IntegrityError
          else Inr (insort_key movie_id
                      \<lparr>movie_id = next_id db s, title = t,
                       year = integer_affinity db (new_year n), description = d,
                       rating = None, ranking = None, review = None,
                       img_url = new_img_url n\<rparr> s,
                    next_id db s)))"

text \<open>
  The view \<^verbatim>\<open>find_movie\<close>. With a missing or empty \<^verbatim>\<open>id\<close> the body of the \<^verbatim>\<open>if\<close> is
  skipped and the function returns \<^verbatim>\<open>None\<close>: the result \<open>Inr None\<close>. The third component
  lists the calls made to the provider.
\<close>

definition find_movie ::
  "config \<Rightarrow> string option network \<Rightarrow> 'r sqlite \<Rightarrow> 'r store \<Rightarrow> request \<Rightarrow>
     (error + 'r response option) \<times> 'r store \<times> call list" where
  "find_movie cfg requests_get db s req =
     (case args_id req of
        None \<Rightarrow> (Inr None, s, [])
      | Some movie_api_id \<Rightarrow>
          if movie_api_id = [] then (Inr None, s, [])
          else
            (let movie_api_url = MOVIE_DB_INFO_URL cfg @ ''/'' @ movie_api_id;
                 params = [(''api_key'', MOVIE_DB_API_KEY cfg), (''language'', ''en-US'')]
             in (case requests_get movie_api_url params of
                   Raised \<Rightarrow> (Inl RequestException, s, [(movie_api_url, params)])
                 | Response status b \<Rightarrow>
                     (case response_json b of
                        Inl e \<Rightarrow> (Inl e, s, [(movie_api_url, params)])
                      | Inr data \<Rightarrow>
                          (case build_movie cfg data of
                             Inl e \<Rightarrow> (Inl e, s, [(movie_api_url, params)])
                           | Inr new \<Rightarrow>
                               (case add_commit db s new of
                                  Inl e \<Rightarrow> (Inl e, s, [(movie_api_url, params)])
                                | Inr (s', new_id) \<Rightarrow>
                                    (Inr (Some (RedirectRate new_id)), s',
                                     [(movie_api_url, params)])))))))"

section \<open>Concrete data\<close>

text \<open>A concrete table, with ratings in the rationals, on which the theorems are run.\<close>

definition film :: "int \<Rightarrow> string \<Rightarrow> rat option \<Rightarrow> int option \<Rightarrow> rat Movie" where
  "film i t r k =
     \<lparr>movie_id = i, title = t, year = IntegerValue 2021, description = ''A film.'', rating = r,
      ranking = k, review = None, img_url = ''https://image.tmdb.org/t/p/w500/abc.jpg''\<rparr>"

definition four_films :: "rat store" where
  "four_films =
     [film 1 ''Dune'' (Some 7.5) None, film 2 ''Alien'' None None,
      film 3 ''Heat'' (Some 9) None, film 4 ''Tenet'' (Some 7.5) None]"

text \<open>
  A stand-in for \<^verbatim>\<open>float\<close> on the texts used below: four literals and, for everything
  else, the \<^verbatim>\<open>ValueError\<close> that \<^verbatim>\<open>float\<close> raises on a text that is no number.
\<close>

definition example_float :: "string \<Rightarrow> error + rat pyfloat" where
  "example_float txt =
     (if txt = ''8.5'' then Inr (Number 8.5)
      else if txt = ''-1.0'' then Inr (Number (- 1))
      else if txt = ''11.0'' then Inr (Number 11)
      else if txt = ''nan'' then Inr NaN
      else Inl ValueError)"

text \<open>
  A stand-in for SQLite: every text that is no string of digits is kept as text, and at
  the largest row id the draw settles on the smallest positive id that is free.
\<close>

fun smallest_free :: "nat \<Rightarrow> int \<Rightarrow> int list \<Rightarrow> int" where
  "smallest_free 0 i ids = i"
| "smallest_free (Suc n) i ids = (if i \<in> set ids then smallest_free n (i + 1) ids else i)"

definition example_sqlite :: "rat sqlite" where
  "example_sqlite =
     \<lparr>numeric_affinity = TextValue, random_rowid = (\<lambda>ids. smallest_free (length ids) 1 ids)\<rparr>"

text \<open>Requests, and two networks: one that answers every call alike, one that is down.\<close>

definition rate_request :: "int \<Rightarrow> string \<Rightarrow> string \<Rightarrow> request" where
  "rate_request i r v =
     \<lparr>req_method = POST, args_row_id = Some i, args_id = None, csrf_ok = True,
      form = [''rating'' \<mapsto> r, ''review'' \<mapsto> v]\<rparr>"

definition post_request :: "int \<Rightarrow> request" where
  "post_request i =
     \<lparr>req_method = POST, args_row_id = Some i, args_id = None, csrf_ok = True,
      form = Map.empty\<rparr>"

definition get_request :: "int \<Rightarrow> request" where
  "get_request i =
     \<lparr>req_method = GET, args_row_id = Some i, args_id = None, csrf_ok = False,
      form = Map.empty\<rparr>"

definition find_request :: "string option \<Rightarrow> request" where
  "find_request i =
     \<lparr>req_method = GET, args_row_id = None, args_id = i, csrf_ok = False, form = Map.empty\<rparr>"

definition search_request :: "string \<Rightarrow> request" where
  "search_request t =
     \<lparr>req_method = POST, args_row_id = None, args_id = None, csrf_ok = True,
      form = [''title'' \<mapsto> t]\<rparr>"

definition provider :: "nat \<Rightarrow> 'v body \<Rightarrow> 'v network" where
  "provider status b = (\<lambda>url params. Response status b)"

definition unreachable :: "'v network" where
  "unreachable = (\<lambda>url params. Raised)"

definition dune_fields :: "string \<rightharpoonup> string option" where
  "dune_fields =
     [''title'' \<mapsto> Some ''Dune'', ''release_date'' \<mapsto> Some ''2021-10-22'',
      ''poster_path'' \<mapsto> Some ''/abc.jpg'', ''overview'' \<mapsto> Some ''A desert planet.'']"

definition dune_detail :: "string option body" where
  "dune_detail = Dict dune_fields"

definition dune_results :: "string list body" where
  "dune_results = Dict [''results'' \<mapsto> [''Dune'', ''Dune: Part Two'']]"

section \<open>The ranking pass\<close>

lemma rating_desc_total: "\<not> rating_desc a b \<Longrightarrow> rating_desc b a"
  by (cases a; cases b) auto

lemma rating_desc_trans: "rating_desc a b \<Longrightarrow> rating_desc b c \<Longrightarrow> rating_desc a c"
  by (cases a; cases b; cases c) auto

lemma set_insert_desc: "set (insert_desc m xs) = insert m (set xs)"
  by (induction xs) auto

lemma mset_insert_desc: "mset (insert_desc m xs) = add_mset m (mset xs)"
  by (induction xs) auto

lemma mset_order_by: "mset (order_by_rating_desc s) = mset s"
  unfolding order_by_rating_desc_def by (induction s) (auto simp: mset_insert_desc)

lemma sorted_insert_desc:
  "sorted_wrt rating_desc (map rating xs) \<Longrightarrow> sorted_wrt rating_desc (map rating (insert_desc m xs))"
proof (induction xs)
  case Nil
  then show ?case by simp
next
  case (Cons x xs)
  show ?case
  proof (cases "rating_desc (rating m) (rating x)")
    case True
    with Cons.prems show ?thesis
      by (auto intro: rating_desc_trans)
  next
    case False
    then have "rating_desc (rating x) (rating m)" by (rule rating_desc_total)
    with False Cons show ?thesis
      by (auto simp: set_insert_desc)
  qed
qed

lemma sorted_order_by: "sorted_wrt rating_desc (map rating (order_by_rating_desc s))"
  unfolding order_by_rating_desc_def by (induction s) (auto intro: sorted_insert_desc)

lemma fst_rank_loop: "fst (rank_loop k ms s) = with_ranks k ms"
  by (induction ms arbitrary: k s) (simp_all add: Let_def case_prod_beta)

lemma movie_id_row_of: "movie_id (row_of L r) = movie_id r"
  by (auto simp: row_of_def split: option.splits dest: find_Some_iff[THEN iffD1])

lemma ids_with_ranks: "map movie_id (with_ranks k ms) = map movie_id ms"
  by (induction ms arbitrary: k) auto

lemma row_of_Cons: "row_of (m # L) r = (if movie_id m = movie_id r then m else row_of L r)"
  by (simp add: row_of_def)

lemma row_of_notin: "movie_id r \<notin> set (map movie_id L) \<Longrightarrow> row_of L r = r"
  by (induction L) (auto simp: row_of_Cons row_of_def)

lemma snd_rank_loop:
  "distinct (map movie_id ms) \<Longrightarrow> snd (rank_loop k ms s) = map (row_of (with_ranks k ms)) s"
proof (induction ms arbitrary: k s)
  case Nil
  then show ?case by (simp add: row_of_def)
next
  case (Cons m ms)
  let ?m' = "m\<lparr>ranking := Some k\<rparr>"
  let ?W = "with_ranks (k + 1) ms"
  from Cons.prems have d: "distinct (map movie_id ms)" and n: "movie_id m \<notin> set (map movie_id ms)"
    by auto
  have "snd (rank_loop k (m # ms) s) = snd (rank_loop (k + 1) ms (commit_row ?m' s))"
    by (simp add: Let_def case_prod_beta)
  also have "\<dots> = map (row_of ?W) (commit_row ?m' s)"
    using Cons.IH[OF d] by simp
  also have "\<dots> = map (row_of (?m' # ?W)) s"
  proof -
    have "row_of ?W ?m' = ?m'"
      using n by (intro row_of_notin) (simp add: ids_with_ranks)
    then show ?thesis
      by (auto simp: commit_row_def row_of_Cons)
  qed
  finally show ?case by simp
qed

lemma with_ranks_elem:
  "x \<in> set (with_ranks k ms) \<Longrightarrow> \<exists>m\<in>set ms. \<exists>i. x = m\<lparr>ranking := i\<rparr>"
  by (induction ms arbitrary: k) auto

lemma row_of_cases:
  "row_of L r = r \<or> (row_of L r \<in> set L \<and> movie_id (row_of L r) = movie_id r)"
  by (induction L) (auto simp: row_of_Cons row_of_def)

lemma row_of_member:
  "movie_id r \<in> set (map movie_id L) \<Longrightarrow> row_of L r \<in> set L"
  by (induction L) (auto simp: row_of_Cons)

lemma row_of_idem: "row_of L (row_of L r) = row_of L r"
proof -
  have "row_of L (row_of L r) =
    (case find (\<lambda>m. movie_id m = movie_id r) L of Some m \<Rightarrow> m | None \<Rightarrow> row_of L r)"
    unfolding row_of_def[of L "row_of L r"] movie_id_row_of ..
  then show ?thesis
    by (simp add: row_of_def split: option.splits)
qed

lemma row_of_ranked:
  assumes "distinct (map movie_id s)" and "r \<in> set s" and "set ms \<subseteq> set s"
  shows "\<exists>i. row_of (with_ranks k ms) r = r\<lparr>ranking := i\<rparr>"
proof -
  from row_of_cases[of "with_ranks k ms" r] show ?thesis
  proof
    assume "row_of (with_ranks k ms) r = r"
    then have "row_of (with_ranks k ms) r = r\<lparr>ranking := ranking r\<rparr>" by simp
    then show ?thesis ..
  next
    assume a: "row_of (with_ranks k ms) r \<in> set (with_ranks k ms) \<and>
      movie_id (row_of (with_ranks k ms) r) = movie_id r"
    then obtain m i where m: "m \<in> set ms" and e: "row_of (with_ranks k ms) r = m\<lparr>ranking := i\<rparr>"
      using with_ranks_elem by blast
    from a e have "movie_id m = movie_id r" by simp
    moreover from m assms(3) have "m \<in> set s" by blast
    moreover from assms(1) have "inj_on movie_id (set s)" by (simp add: distinct_map)
    ultimately have "m = r" using assms(2) by (auto dest: inj_onD)
    with e show ?thesis by blast
  qed
qed

lemma insert_desc_map:
  "\<forall>x\<in>set (m # xs). rating (f x) = rating x \<Longrightarrow>
   insert_desc (f m) (map f xs) = map f (insert_desc m xs)"
  by (induction xs) auto

lemma order_by_map:
  "\<forall>x\<in>set s. rating (f x) = rating x \<Longrightarrow>
   order_by_rating_desc (map f s) = map f (order_by_rating_desc s)"
proof (induction s)
  case Nil
  then show ?case by (simp add: order_by_rating_desc_def)
next
  case (Cons m s)
  have set_eq: "set (order_by_rating_desc s) = set s"
    using mset_order_by[of s] by (metis set_mset_mset)
  from Cons have IH: "order_by_rating_desc (map f s) = map f (order_by_rating_desc s)"
    by simp
  have "order_by_rating_desc (map f (m # s)) = insert_desc (f m) (order_by_rating_desc (map f s))"
    by (simp add: order_by_rating_desc_def)
  also have "\<dots> = insert_desc (f m) (map f (order_by_rating_desc s))"
    by (simp only: IH)
  also have "\<dots> = map f (insert_desc m (order_by_rating_desc s))"
    using Cons.prems set_eq by (intro insert_desc_map) simp
  finally show ?case by (simp add: order_by_rating_desc_def)
qed

lemma with_ranks_map:
  "\<forall>x\<in>set xs. \<exists>i. f x = x\<lparr>ranking := i\<rparr> \<Longrightarrow> with_ranks k (map f xs) = with_ranks k xs"
proof (induction xs arbitrary: k)
  case Nil
  then show ?case by simp
next
  case (Cons x xs)
  then obtain i where "f x = x\<lparr>ranking := i\<rparr>" by auto
  with Cons show ?case by simp
qed

lemma unranked_with_ranks:
  "map (\<lambda>m. m\<lparr>ranking := None\<rparr>) (with_ranks k ms) = map (\<lambda>m. m\<lparr>ranking := None\<rparr>) ms"
  by (induction ms arbitrary: k) auto

lemma rating_with_ranks: "map rating (with_ranks k ms) = map rating ms"
  by (induction ms arbitrary: k) auto

lemma ranking_with_ranks:
  "map ranking (with_ranks k ms) = map Some [k .. k + int (length ms) - 1]"
proof (induction ms arbitrary: k)
  case Nil
  then show ?case by simp
next
  case (Cons m ms)
  have "[k .. k + int (length (m # ms)) - 1] = k # [k + 1 .. k + 1 + int (length ms) - 1]"
    by (subst upto_rec1) (simp_all add: algebra_simps)
  with Cons show ?case by simp
qed

lemma length_order_by: "length (order_by_rating_desc s) = length s"
  using mset_order_by[of s] by (metis size_mset)

lemma set_order_by: "set (order_by_rating_desc s) = set s"
  using mset_order_by[of s] by (metis set_mset_mset)

lemma distinct_ids_order_by:
  "distinct (map movie_id s) \<Longrightarrow> distinct (map movie_id (order_by_rating_desc s))"
proof -
  assume d: "distinct (map movie_id s)"
  have "mset (map movie_id (order_by_rating_desc s)) = mset (map movie_id s)"
    by (simp add: mset_order_by)
  then show ?thesis using d by (metis mset_eq_imp_distinct_iff)
qed

lemma home_fst: "fst (home s) = with_ranks 1 (order_by_rating_desc s)"
  by (simp add: home_def fst_rank_loop)

lemma home_snd:
  "distinct (map movie_id s) \<Longrightarrow> snd (home s) = map (row_of (fst (home s))) s"
  by (simp add: home_def fst_rank_loop snd_rank_loop distinct_ids_order_by)

lemma home_snd_ids: "distinct (map movie_id s) \<Longrightarrow> map movie_id (snd (home s)) = map movie_id s"
  by (simp add: home_snd movie_id_row_of)

lemma home_row_ranked:
  assumes "distinct (map movie_id s)" and "r \<in> set s"
  shows "\<exists>i. row_of (fst (home s)) r = r\<lparr>ranking := i\<rparr>"
  unfolding home_fst using assms by (intro row_of_ranked[of s]) (simp_all add: set_order_by)

lemma home_mset:
  assumes d: "distinct (map movie_id s)"
  shows "mset (snd (home s)) = mset (fst (home s))"
proof -
  let ?L = "fst (home s)"
  let ?s' = "snd (home s)"
  have ids_L: "mset (map movie_id ?L) = mset (map movie_id s)"
    by (simp add: home_fst ids_with_ranks mset_order_by)
  then have dL: "distinct (map movie_id ?L)"
    using d by (metis mset_eq_imp_distinct_iff)
  then have "distinct ?L" by (simp add: distinct_map)
  moreover have "distinct ?s'"
    using home_snd_ids[OF d] d by (metis distinct_map)
  moreover have "set ?s' = set ?L"
  proof (rule card_subset_eq)
    show "finite (set ?L)" by simp
    show "set ?s' \<subseteq> set ?L"
    proof
      fix x assume "x \<in> set ?s'"
      then obtain r where r: "r \<in> set s" and x: "x = row_of ?L r"
        by (auto simp: home_snd[OF d])
      from r have "movie_id r \<in> set (map movie_id s)" by simp
      then have "movie_id r \<in> set (map movie_id ?L)"
        using ids_L by (metis set_mset_mset)
      then show "x \<in> set ?L" unfolding x by (rule row_of_member)
    qed
    have "length ?s' = length ?L"
      by (simp add: home_snd[OF d] home_fst length_order_by)
      (metis ids_with_ranks length_map length_order_by)
    then show "card (set ?s') = card (set ?L)"
      using \<open>distinct ?L\<close> \<open>distinct ?s'\<close> by (simp add: distinct_card)
  qed
  ultimately show ?thesis by (simp add: set_eq_iff_mset_eq_distinct)
qed

lemma rating_desc_antisym: "rating_desc a b \<Longrightarrow> rating_desc b a \<Longrightarrow> a = b"
  by (cases a; cases b) auto

lemma sorted_desc_unique:
  "sorted_wrt rating_desc xs \<Longrightarrow> sorted_wrt rating_desc ys \<Longrightarrow> mset xs = mset ys \<Longrightarrow> xs = ys"
proof (induction xs arbitrary: ys)
  case Nil
  then show ?case by simp
next
  case (Cons x xs)
  then obtain y ys' where ys: "ys = y # ys'" by (cases ys) auto
  have "x = y"
  proof (rule ccontr)
    assume ne: "x \<noteq> y"
    from Cons.prems(3) ys have "x \<in> set (y # ys')" by (metis list.set_intros(1) mset_eq_setD)
    with ne have "x \<in> set ys'" by simp
    with Cons.prems(2) ys have 1: "rating_desc y x" by simp
    from Cons.prems(3) ys have "y \<in> set (x # xs)" by (metis list.set_intros(1) mset_eq_setD)
    with ne have "y \<in> set xs" by auto
    with Cons.prems(1) have 2: "rating_desc x y" by simp
    from 1 2 ne show False by (auto dest: rating_desc_antisym)
  qed
  with Cons ys show ?case by simp
qed

lemma home_four_films:
  "home four_films =
     ([film 3 ''Heat'' (Some 9) (Some 1), film 1 ''Dune'' (Some 7.5) (Some 2),
       film 4 ''Tenet'' (Some 7.5) (Some 3), film 2 ''Alien'' None (Some 4)],
      [film 1 ''Dune'' (Some 7.5) (Some 2), film 2 ''Alien'' None (Some 4),
       film 3 ''Heat'' (Some 9) (Some 1), film 4 ''Tenet'' (Some 7.5) (Some 3)])"
  by (simp add: home_def order_by_rating_desc_def four_films_def film_def commit_row_def Let_def)

lemma wf_four_films: "wf_store four_films"
  by (simp add: wf_store_def four_films_def film_def)

text \<open>
  C1. The collection read lists the records of the table by rating, highest first, the
  records without a rating after all rated ones, and gives the ranks 1, 2, 3, ... in
  that order, to the objects listed and to the rows of the table. With the ratings
  \<open>a\<close>, \<open>b\<close>, \<open>b\<close> and none in the table, \<open>b < a\<close> (such as 9.0, 7.5, 7.5), the record rated
  \<open>a\<close> gets rank 1, the two rated \<open>b\<close> get 2 and 3, and the unrated one gets 4.
\<close>

theorem home_ranking:
  assumes "wf_store s" and "home s = (listing, s')"
  shows "mset (map (\<lambda>m. m\<lparr>ranking := None\<rparr>) listing) = mset (map (\<lambda>m. m\<lparr>ranking := None\<rparr>) s) \<and>
    sorted_wrt rating_desc (map rating listing) \<and>
    map ranking listing = map Some [1 .. int (length s)] \<and>
    mset s' = mset listing \<and>
    map movie_id s' = map movie_id s \<and>
    (\<forall>a b. b < a \<and> mset (map rating s) = {#Some a, Some b, Some b, None#} \<longrightarrow>
       map rating listing = [Some a, Some b, Some b, None] \<and>
       map ranking listing = [Some 1, Some 2, Some 3, Some 4])"
proof -
  from assms(1) have d: "distinct (map movie_id s)" by (simp add: wf_store_def)
  from assms(2) have L: "listing = with_ranks 1 (order_by_rating_desc s)"
    using home_fst[of s] by simp
  from assms(2) have S: "s' = snd (home s)" and L': "listing = fst (home s)" by simp_all
  have 1: "mset (map (\<lambda>m. m\<lparr>ranking := None\<rparr>) listing) = mset (map (\<lambda>m. m\<lparr>ranking := None\<rparr>) s)"
    unfolding L unranked_with_ranks by (simp add: mset_order_by)
  have 2: "sorted_wrt rating_desc (map rating listing)"
    unfolding L rating_with_ranks by (rule sorted_order_by)
  have 3: "map ranking listing = map Some [1 .. int (length s)]"
    unfolding L ranking_with_ranks by (simp add: length_order_by)
  have 4: "mset s' = mset listing"
    unfolding S L' using d by (rule home_mset)
  have 5: "map movie_id s' = map movie_id s"
    unfolding S using d by (rule home_snd_ids)
  have 6: "map rating listing = [Some a, Some b, Some b, None] \<and>
       map ranking listing = [Some 1, Some 2, Some 3, Some 4]"
    if ab: "b < a" and m: "mset (map rating s) = {#Some a, Some b, Some b, None#}" for a b
  proof -
    have "mset (map rating listing) = mset [Some a, Some b, Some b, None]"
      unfolding L rating_with_ranks using m by (simp add: mset_order_by)
    moreover have "sorted_wrt rating_desc [Some a, Some b, Some b, None]"
      using ab by simp
    ultimately have r: "map rating listing = [Some a, Some b, Some b, None]"
      using 2 by (intro sorted_desc_unique)
    from m have "size (mset (map rating s)) = 4" by simp
    then have "length s = 4" by simp
    with 3 have "map ranking listing = [Some 1, Some 2, Some 3, Some 4]"
      by (simp add: upto_rec1)
    with r show ?thesis by simp
  qed
  from 1 2 3 4 5 6 show ?thesis by blast
qed

theorem home_ranking_witness:
  "wf_store four_films \<and>
   home four_films =
     ([film 3 ''Heat'' (Some 9) (Some 1), film 1 ''Dune'' (Some 7.5) (Some 2),
       film 4 ''Tenet'' (Some 7.5) (Some 3), film 2 ''Alien'' None (Some 4)],
      [film 1 ''Dune'' (Some 7.5) (Some 2), film 2 ''Alien'' None (Some 4),
       film 3 ''Heat'' (Some 9) (Some 1), film 4 ''Tenet'' (Some 7.5) (Some 3)]) \<and>
   map ranking
     [film 3 ''Heat'' (Some 9) (Some 1), film 1 ''Dune'' (Some 7.5) (Some 2),
      film 4 ''Tenet'' (Some 7.5) (Some 3), film 2 ''Alien'' None (Some 4)] =
     map Some [1 .. int (length four_films)] \<and>
   sorted_wrt rating_desc (map rating
     [film 3 ''Heat'' (Some 9) (Some 1), film 1 ''Dune'' (Some 7.5) (Some 2),
      film 4 ''Tenet'' (Some 7.5) (Some 3), film 2 ''Alien'' None (Some 4)])"
  using home_ranking [OF wf_four_films home_four_films] wf_four_films home_four_films
  by blast

text \<open>
  C2. A second collection read right after the first changes nothing: it lists the same
  objects with the same ranks and leaves every row of the table as it is.
\<close>

theorem home_idempotent:
  assumes "wf_store s" and "home s = (listing, s')"
  shows "home s' = (listing, s')"
proof -
  from assms(1) have d: "distinct (map movie_id s)" by (simp add: wf_store_def)
  from assms(2) have S: "s' = map (row_of listing) s" and L: "listing = fst (home s)"
    using home_snd[OF d] by simp_all
  have ranked: "\<forall>r\<in>set s. \<exists>i. row_of listing r = r\<lparr>ranking := i\<rparr>"
    unfolding L using d by (blast intro: home_row_ranked)
  then have rat: "\<forall>r\<in>set s. rating (row_of listing r) = rating r"
    by (metis Movie.select_convs(5) Movie.surjective Movie.update_convs(6))
  have o: "order_by_rating_desc s' = map (row_of listing) (order_by_rating_desc s)"
    unfolding S using rat by (rule order_by_map)
  have f: "fst (home s') = listing"
    unfolding home_fst o using ranked
    by (subst with_ranks_map) (simp_all add: set_order_by L home_fst)
  have d': "distinct (map movie_id s')"
    unfolding S using d by (simp add: movie_id_row_of comp_def)
  have "snd (home s') = map (row_of listing) s'"
    using home_snd[OF d'] f by simp
  also have "\<dots> = s'"
    unfolding S by (simp add: row_of_idem)
  finally show ?thesis using f by (metis prod.collapse)
qed

theorem home_idempotent_witness:
  "wf_store four_films \<and>
   home four_films =
     ([film 3 ''Heat'' (Some 9) (Some 1), film 1 ''Dune'' (Some 7.5) (Some 2),
       film 4 ''Tenet'' (Some 7.5) (Some 3), film 2 ''Alien'' None (Some 4)],
      [film 1 ''Dune'' (Some 7.5) (Some 2), film 2 ''Alien'' None (Some 4),
       film 3 ''Heat'' (Some 9) (Some 1), film 4 ''Tenet'' (Some 7.5) (Some 3)]) \<and>
   home [film 1 ''Dune'' (Some 7.5) (Some 2), film 2 ''Alien'' None (Some 4),
       film 3 ''Heat'' (Some 9) (Some 1), film 4 ''Tenet'' (Some 7.5) (Some 3)] =
     ([film 3 ''Heat'' (Some 9) (Some 1), film 1 ''Dune'' (Some 7.5) (Some 2),
       film 4 ''Tenet'' (Some 7.5) (Some 3), film 2 ''Alien'' None (Some 4)],
      [film 1 ''Dune'' (Some 7.5) (Some 2), film 2 ''Alien'' None (Some 4),
       film 3 ''Heat'' (Some 9) (Some 1), film 4 ''Tenet'' (Some 7.5) (Some 3)])"
  using home_idempotent [OF wf_four_films home_four_films] wf_four_films home_four_films
  by blast

section \<open>The table invariant\<close>

text \<open>
  The empty table has distinct keys and titles, and every view keeps them distinct.
\<close>

lemma wf_store_empty: "wf_store []"
  by (simp add: wf_store_def)

lemma find_SomeD: "find P xs = Some x \<Longrightarrow> x \<in> set xs \<and> P x"
  by (induction xs) (auto split: if_splits)

lemma get_or_404_Some:
  "get_or_404 s key = Inr m \<Longrightarrow> m \<in> set s \<and> key = Some (movie_id m)"
  by (auto simp: get_or_404_def split: option.splits dest: find_SomeD)

lemma get_or_404_absent:
  "(case key of None \<Rightarrow> True | Some i \<Rightarrow> i \<notin> set (map movie_id s)) \<Longrightarrow>
   get_or_404 s key = Inl NotFound"
  by (auto simp: get_or_404_def split: option.splits dest: find_SomeD)

lemma get_or_404_present:
  "i \<in> set (map movie_id s) \<Longrightarrow> \<exists>m\<in>set s. movie_id m = i \<and> get_or_404 s (Some i) = Inr m"
proof (induction s)
  case Nil
  then show ?case by simp
next
  case (Cons r rs)
  show ?case
  proof (cases "movie_id r = i")
    case True
    then show ?thesis by (simp add: get_or_404_def)
  next
    case False
    with Cons obtain m where "m \<in> set rs" "movie_id m = i" "get_or_404 rs (Some i) = Inr m"
      by auto
    with False show ?thesis by (auto simp: get_or_404_def)
  qed
qed

lemma commit_row_own:
  assumes "distinct (map movie_id s)" and "movie \<in> set s" and "movie_id (f movie) = movie_id movie"
  shows "commit_row (f movie) s = map (\<lambda>m. if movie_id m = movie_id movie then f m else m) s"
proof -
  from assms(1) have inj: "inj_on movie_id (set s)" by (simp add: distinct_map)
  have "m = movie" if "m \<in> set s" "movie_id m = movie_id movie" for m
    using inj that assms(2) by (auto dest: inj_onD)
  then show ?thesis
    using assms(3) by (auto simp: commit_row_def)
qed

lemma wf_store_home:
  assumes "wf_store s"
  shows "wf_store (snd (home s))"
proof -
  from assms have d: "distinct (map movie_id s)" by (simp add: wf_store_def)
  have "title (row_of (fst (home s)) r) = title r" if "r \<in> set s" for r
  proof -
    from home_row_ranked[OF d that] obtain i where "row_of (fst (home s)) r = r\<lparr>ranking := i\<rparr>" ..
    then show ?thesis by simp
  qed
  then have "map title (snd (home s)) = map title s"
    unfolding home_snd[OF d] by (simp add: map_idI)
  with assms home_snd_ids[OF d] show ?thesis by (simp add: wf_store_def)
qed

lemma wf_store_rate_movie:
  assumes "wf_store s"
  shows "wf_store (snd (rate_movie to_float s req))"
proof -
  from assms have d: "distinct (map movie_id s)" by (simp add: wf_store_def)
  have "wf_store (commit_row (movie\<lparr>rating := a, review := b\<rparr>) s)"
    if "get_or_404 s (args_row_id req) = Inr movie" for movie a b
  proof -
    from that have m: "movie \<in> set s" by (simp add: get_or_404_Some)
    have e: "commit_row (movie\<lparr>rating := a, review := b\<rparr>) s =
      map (\<lambda>m. if movie_id m = movie_id movie then m\<lparr>rating := a, review := b\<rparr> else m) s"
      using commit_row_own[OF d m, of "\<lambda>m. m\<lparr>rating := a, review := b\<rparr>"] by simp
    have "map movie_id (commit_row (movie\<lparr>rating := a, review := b\<rparr>) s) = map movie_id s"
      unfolding e by (induction s) auto
    moreover have "map title (commit_row (movie\<lparr>rating := a, review := b\<rparr>) s) = map title s"
      unfolding e by (induction s) auto
    ultimately show ?thesis using assms by (simp add: wf_store_def)
  qed
  then show ?thesis using assms
    by (auto simp: rate_movie_def split: sum.splits)
qed

lemma wf_store_delete_movie: "wf_store s \<Longrightarrow> wf_store (snd (delete_movie s req))"
  by (auto simp: delete_movie_def delete_row_def wf_store_def distinct_map_filter
      split: sum.splits)

lemma fold_max_ge: "a \<le> fold max xs (a::int) \<and> (\<forall>x\<in>set xs. x \<le> fold max xs a)"
proof (induction xs arbitrary: a)
  case Nil
  then show ?case by simp
next
  case (Cons y ys)
  from Cons[of "max y a"] show ?case by auto
qed

lemma next_id_fresh:
  assumes "random_rowid db (map movie_id s) \<notin> set (map movie_id s)"
  shows "next_id db s \<notin> set (map movie_id s)"
proof (cases s)
  case Nil
  then show ?thesis by simp
next
  case (Cons r rs)
  let ?largest = "fold max (map movie_id rs) (movie_id r)"
  show ?thesis
  proof (cases "?largest < max_rowid")
    case True
    have "\<forall>x\<in>set (map movie_id s). x \<le> ?largest"
      using fold_max_ge[of "movie_id r" "map movie_id rs"] Cons by auto
    moreover from True Cons have "next_id db s = ?largest + 1"
      by (simp add: next_id_def)
    ultimately show ?thesis by fastforce
  next
    case False
    with Cons have "next_id db s = random_rowid db (map movie_id s)"
      by (simp add: next_id_def)
    with assms show ?thesis by simp
  qed
qed

lemma distinct_map_insort_key:
  "distinct (map g (insort_key k x xs)) = (g x \<notin> set (map g xs) \<and> distinct (map g xs))"
proof -
  have "mset (map g (insort_key k x xs)) = mset (g x # map g xs)"
    by simp
  then have "distinct (map g (insort_key k x xs)) = distinct (g x # map g xs)"
    by (rule mset_eq_imp_distinct_iff)
  then show ?thesis by simp
qed

lemma wf_store_add_commit:
  assumes "wf_store s" and "random_rowid db (map movie_id s) \<notin> set (map movie_id s)"
    and "add_commit db s n = Inr (s', i)"
  shows "wf_store s'"
  using assms(1,3) next_id_fresh[OF assms(2)]
  by (auto simp: add_commit_def wf_store_def distinct_map_insort_key
      split: option.splits if_splits)

lemma wf_store_find_movie:
  assumes "wf_store s" and "random_rowid db (map movie_id s) \<notin> set (map movie_id s)"
  shows "wf_store (fst (snd (find_movie cfg requests_get db s req)))"
proof -
  have "wf_store s'" if "add_commit db s n = Inr (s', i)" for n s' i
    using assms that by (rule wf_store_add_commit)
  then show ?thesis
    using assms(1)
    by (auto simp: find_movie_def Let_def split: option.splits http_result.splits sum.splits)
qed

section \<open>Looking up, rating and deleting\<close>

lemma validate_RateMovieForm: "validate_on_submit RateMovieForm req = (is_submitted req \<and> csrf_ok req)"
  by (simp add: validate_on_submit_def validate_def RateMovieForm_def)

lemma get_four_films_1: "get_or_404 four_films (Some 1) = Inr (film 1 ''Dune'' (Some 7.5) None)"
  by (simp add: get_or_404_def four_films_def film_def)

text \<open>
  C6. When the key of the request is the key of no row (or the request has none), looking
  the record up, rating it and deleting it all fail with \<open>NotFound\<close>, and the table after
  the call is the table before it.
\<close>

theorem absent_id_not_found:
  assumes "case args_row_id req of None \<Rightarrow> True | Some i \<Rightarrow> i \<notin> set (map movie_id s)"
  shows "get_or_404 s (args_row_id req) = Inl NotFound \<and>
         rate_movie to_float s req = (Inl NotFound, s) \<and>
         delete_movie s req = (Inl NotFound, s)"
  using get_or_404_absent[OF assms] by (simp add: rate_movie_def delete_movie_def)

theorem absent_id_not_found_witness:
  "(case args_row_id (rate_request 7 ''8.5'' ''Great'') of
      None \<Rightarrow> True | Some i \<Rightarrow> i \<notin> set (map movie_id four_films)) \<and>
   get_or_404 four_films (args_row_id (rate_request 7 ''8.5'' ''Great'')) = Inl NotFound \<and>
   rate_movie example_float four_films (rate_request 7 ''8.5'' ''Great'') = (Inl NotFound, four_films) \<and>
   delete_movie four_films (rate_request 7 ''8.5'' ''Great'') = (Inl NotFound, four_films)"
proof -
  have h: "case args_row_id (rate_request 7 ''8.5'' ''Great'') of
      None \<Rightarrow> True | Some i \<Rightarrow> i \<notin> set (map movie_id four_films)"
    by (simp add: rate_request_def four_films_def film_def)
  from absent_id_not_found [OF h, of example_float] h show ?thesis by blast
qed



text \<open>
  C9. The rating field has no validator, so a submission passes validation whatever the
  rating text is, the empty text included. When the conversion of the text raises, the
  view raises the same exception and the table is unchanged.
\<close>

theorem rate_movie_conversion_error:
  assumes "get_or_404 s (args_row_id req) = Inr movie"
    and "is_submitted req" and "csrf_ok req"
    and "form req ''rating'' = Some rating_text"
    and "to_float rating_text = Inl e"
  shows "validate_on_submit RateMovieForm req \<and> rate_movie to_float s req = (Inl e, s)"
  using assms by (simp add: validate_RateMovieForm rate_movie_def py_float_def)

theorem rate_movie_conversion_error_witness:
  "get_or_404 four_films (args_row_id (rate_request 1 [] ''Great'')) =
     Inr (film 1 ''Dune'' (Some 7.5) None) \<and>
   is_submitted (rate_request 1 [] ''Great'') \<and> csrf_ok (rate_request 1 [] ''Great'') \<and>
   form (rate_request 1 [] ''Great'') ''rating'' = Some [] \<and>
   example_float [] = Inl ValueError \<and>
   validate_on_submit RateMovieForm (rate_request 1 [] ''Great'') \<and>
   rate_movie example_float four_films (rate_request 1 [] ''Great'') = (Inl ValueError, four_films)"
proof -
  have g: "get_or_404 four_films (args_row_id (rate_request 1 [] ''Great'')) =
      Inr (film 1 ''Dune'' (Some 7.5) None)"
    by (simp add: rate_request_def get_four_films_1)
  have s: "is_submitted (rate_request 1 [] ''Great'')"
    and c: "csrf_ok (rate_request 1 [] ''Great'')"
    and f: "form (rate_request 1 [] ''Great'') ''rating'' = Some []"
    by (simp_all add: is_submitted_def rate_request_def)
  have e: "example_float [] = Inl ValueError"
    by (simp add: example_float_def)
  from rate_movie_conversion_error [where to_float = example_float and rating_text = "[]", OF g s c f e]
    g s c f e
  show ?thesis by blast
qed

text \<open>
  What the view \<^verbatim>\<open>delete_movie\<close> does with a key that is in the table. When the method is
  POST it removes the row with that key and no other, and the key is then in the table no
  more. With any other method it renders the confirmation page for the row and leaves the
  table as it is.
\<close>

lemma delete_movie_view:
  assumes "args_row_id req = Some i" and "i \<in> set (map movie_id s)"
  shows "(req_method req = POST \<longrightarrow>
            delete_movie s req = (Inr RedirectHome, filter (\<lambda>r. movie_id r \<noteq> i) s) \<and>
            i \<notin> set (map movie_id (snd (delete_movie s req)))) \<and>
         (req_method req \<noteq> POST \<longrightarrow>
            (\<exists>m\<in>set s. movie_id m = i \<and>
               delete_movie s req =
                 (Inr (RenderDelete m ''You are about to delete this movie.''), s)))"
proof -
  from get_or_404_present[OF assms(2)] obtain movie
    where "movie \<in> set s" "movie_id movie = i" "get_or_404 s (Some i) = Inr movie"
    by blast
  with assms(1) show ?thesis
    by (auto simp: delete_movie_def delete_row_def)
qed

lemma route_delete_keeps_table: "snd (route_delete s req) = s"
  by (cases "req_method req")
     (auto simp: route_delete_def delete_movie_def split: sum.splits)

text \<open>
  C3. The claim is that a delete request for a key that is in the table removes the
  record. The program does not do that. The route \<^verbatim>\<open>/delete\<close> lists no methods, so the
  POST that the view waits for is answered with a 405 before the view runs, and the
  methods that do reach the view only render the confirmation page. For every table and
  every request with a key of the table, the table after the request is the table before
  it and the key is still there.
\<close>

theorem route_delete_keeps_record:
  assumes "args_row_id req = Some i" and "i \<in> set (map movie_id s)"
  shows "snd (route_delete s req) = s \<and>
         i \<in> set (map movie_id (snd (route_delete s req))) \<and>
         (req_method req = POST \<longrightarrow> route_delete s req = (Inl MethodNotAllowed, s)) \<and>
         (req_method req = GET \<longrightarrow>
            (\<exists>m\<in>set s. movie_id m = i \<and>
               route_delete s req =
                 (Inr (RenderDelete m ''You are about to delete this movie.''), s)))"
proof -
  have "route_delete s req = delete_movie s req" if "req_method req = GET"
    using that by (simp add: route_delete_def)
  moreover have "\<exists>m\<in>set s. movie_id m = i \<and>
      delete_movie s req = (Inr (RenderDelete m ''You are about to delete this movie.''), s)"
    if "req_method req = GET"
    using delete_movie_view[OF assms] that by simp
  ultimately show ?thesis
    using assms(2) by (auto simp: route_delete_keeps_table) (simp add: route_delete_def)
qed

theorem route_delete_keeps_record_witness:
  "args_row_id (post_request 1) = Some 1 \<and> args_row_id (get_request 1) = Some 1 \<and>
   1 \<in> set (map movie_id four_films) \<and>
   route_delete four_films (post_request 1) = (Inl MethodNotAllowed, four_films) \<and>
   route_delete four_films (get_request 1) =
     (Inr (RenderDelete (film 1 ''Dune'' (Some 7.5) None) ''You are about to delete this movie.''),
      four_films) \<and>
   get_or_404 (snd (route_delete four_films (post_request 1))) (Some 1) =
     Inr (film 1 ''Dune'' (Some 7.5) None)"
proof -
  have k: "args_row_id (post_request 1) = Some 1" and k': "args_row_id (get_request 1) = Some 1"
    by (simp_all add: post_request_def get_request_def)
  have p: "1 \<in> set (map movie_id four_films)"
    by (simp add: four_films_def film_def)
  have m: "req_method (post_request 1) = POST" and m': "req_method (get_request 1) = GET"
    by (simp_all add: post_request_def get_request_def)
  have g: "route_delete four_films (get_request 1) =
     (Inr (RenderDelete (film 1 ''Dune'' (Some 7.5) None) ''You are about to delete this movie.''),
      four_films)"
    by (simp add: route_delete_def delete_movie_def get_request_def get_four_films_1)
  from route_delete_keeps_record [OF k p] route_delete_keeps_record [OF k' p] m k k' p g
  show ?thesis by (simp add: get_four_films_1)
qed

text \<open>
  The view itself, called with a POST, would delete: on the four films it removes Dune.
\<close>

lemma delete_movie_post_four_films:
  "delete_movie four_films (post_request 1) =
     (Inr RedirectHome,
      [film 2 ''Alien'' None None, film 3 ''Heat'' (Some 9) None, film 4 ''Tenet'' (Some 7.5) None])"
  by (simp add: delete_movie_def delete_row_def post_request_def get_four_films_1)
     (simp add: four_films_def film_def)

section \<open>Searching and adding\<close>

lemma valid_search_request: "validate_on_submit FindMovieForm (search_request ''Dune'')"
  by (simp add: validate_on_submit_def validate_def is_submitted_def FindMovieForm_def
      search_request_def strip_def isspace_def)

text \<open>
  C8, as the view has it. A valid search submission makes exactly one call to the provider,
  whatever the outcome. The view fails when the call raises, when the body is not JSON,
  when the JSON is no object, and when the object has no entry \<^verbatim>\<open>results\<close>. Otherwise it
  hands the entry to the template as it is. The status code plays no part.
\<close>

theorem add_movie_outcomes:
  assumes "validate_on_submit FindMovieForm req"
  shows "\<exists>movie_title. form req ''title'' = Some movie_title \<and>
    (let url = MOVIE_DB_SEARCH_URL cfg;
         params = [(''api_key'', MOVIE_DB_API_KEY cfg), (''query'', movie_title)]
     in snd (add_movie cfg requests_get req) = [(url, params)] \<and>
        fst (add_movie cfg requests_get req) =
          (case requests_get url params of
             Raised \<Rightarrow> Inl RequestException
           | Response status NotJson \<Rightarrow> Inl JSONDecodeError
           | Response status NotDict \<Rightarrow> Inl TypeError
           | Response status (Dict d) \<Rightarrow>
               (case d ''results'' of
                  None \<Rightarrow> Inl (KeyError ''results'')
                | Some data \<Rightarrow> Inr (RenderSelect data))))"
proof -
  from assms obtain movie_title where t: "form req ''title'' = Some movie_title"
    by (cases "form req ''title''") (auto simp: validate_on_submit_def validate_def FindMovieForm_def)
  have "snd (add_movie cfg requests_get req) =
      [(MOVIE_DB_SEARCH_URL cfg, [(''api_key'', MOVIE_DB_API_KEY cfg), (''query'', movie_title)])]"
    using assms t
    by (simp add: add_movie_def Let_def query_param_def response_json_def getitem_def
        split: http_result.splits body.splits sum.splits option.splits)
  moreover have "fst (add_movie cfg requests_get req) =
      (case requests_get (MOVIE_DB_SEARCH_URL cfg)
          [(''api_key'', MOVIE_DB_API_KEY cfg), (''query'', movie_title)] of
         Raised \<Rightarrow> Inl RequestException
       | Response status NotJson \<Rightarrow> Inl JSONDecodeError
       | Response status NotDict \<Rightarrow> Inl TypeError
       | Response status (Dict d) \<Rightarrow>
           (case d ''results'' of
              None \<Rightarrow> Inl (KeyError ''results'')
            | Some data \<Rightarrow> Inr (RenderSelect data)))"
    using assms t
    by (simp add: add_movie_def Let_def query_param_def response_json_def getitem_def
        split: http_result.splits body.splits sum.splits option.splits)
  ultimately show ?thesis using t by (simp add: Let_def)
qed

theorem add_movie_outcomes_witness:
  "validate_on_submit FindMovieForm (search_request ''Dune'') \<and>
   add_movie (module_config ''key'') (unreachable :: string list network) (search_request ''Dune'') =
     (Inl RequestException,
      [(''https://api.themoviedb.org/3/search/movie'',
        [(''api_key'', ''key''), (''query'', ''Dune'')])]) \<and>
   add_movie (module_config ''key'') (provider 200 dune_results) (search_request ''Dune'') =
     (Inr (RenderSelect [''Dune'', ''Dune: Part Two'']),
      [(''https://api.themoviedb.org/3/search/movie'',
        [(''api_key'', ''key''), (''query'', ''Dune'')])])"
proof -
  have f: "form (search_request ''Dune'') ''title'' = Some ''Dune''"
    by (simp add: search_request_def)
  from add_movie_outcomes [OF valid_search_request,
      of "module_config ''key''" "unreachable :: string list network"]
  have 1: "add_movie (module_config ''key'') (unreachable :: string list network)
      (search_request ''Dune'') =
     (Inl RequestException,
      [(''https://api.themoviedb.org/3/search/movie'',
        [(''api_key'', ''key''), (''query'', ''Dune'')])])"
    by (simp add: f Let_def unreachable_def module_config_def prod_eq_iff)
  from add_movie_outcomes [OF valid_search_request,
      of "module_config ''key''" "provider 200 dune_results"]
  have 2: "add_movie (module_config ''key'') (provider 200 dune_results) (search_request ''Dune'') =
     (Inr (RenderSelect [''Dune'', ''Dune: Part Two'']),
      [(''https://api.themoviedb.org/3/search/movie'',
        [(''api_key'', ''key''), (''query'', ''Dune'')])])"
    by (simp add: f Let_def provider_def dune_results_def module_config_def prod_eq_iff)
  from 1 2 valid_search_request show ?thesis by blast
qed

text \<open>
  A response with status 500 whose body has an entry \<^verbatim>\<open>results\<close> is rendered like a
  success: the claim that a non-success status makes the search fail does not hold.
\<close>

theorem add_movie_status_counterexample:
  "add_movie (module_config ''key'') (provider 500 dune_results) (search_request ''Dune'') =
     (Inr (RenderSelect [''Dune'', ''Dune: Part Two'']),
      [(''https://api.themoviedb.org/3/search/movie'',
        [(''api_key'', ''key''), (''query'', ''Dune'')])])"
  using valid_search_request
  by (simp add: add_movie_def provider_def dune_results_def module_config_def
      response_json_def getitem_def query_param_def search_request_def Let_def)

lemma str_split_first: "first_item (str_split sep str) = Inr (takeWhile (\<lambda>c. c \<noteq> sep) str)"
  by (induction str) (auto simp: first_item_def split: list.splits)

lemma build_movie_strings:
  assumes "d ''title'' = Some t" and "d ''release_date'' = Some (Some release_date)"
    and "d ''poster_path'' = Some poster_path" and "d ''overview'' = Some overview"
  shows "build_movie cfg (Dict d) =
    Inr \<lparr>new_title = t, new_year = takeWhile (\<lambda>c. c \<noteq> CHR ''-'') release_date,
         new_img_url = MOVIE_DB_IMAGE_URL cfg @ format_value poster_path,
         new_description = overview\<rparr>"
  using assms by (simp add: build_movie_def getitem_def split_value_def str_split_first)

lemma add_commit_duplicate:
  "new_title n = Some t \<Longrightarrow> t \<in> set (map title s) \<Longrightarrow> add_commit db s n = Inl IntegrityError"
  by (simp add: add_commit_def split: option.splits)

lemma dune_detail_call:
  "provider 200 dune_detail url params = Response 200 (Dict dune_fields)"
  by (simp add: provider_def dune_detail_def)

lemma dune_fields_values:
  "dune_fields ''title'' = Some (Some ''Dune'')"
  "dune_fields ''release_date'' = Some (Some ''2021-10-22'')"
  "dune_fields ''poster_path'' = Some (Some ''/abc.jpg'')"
  "dune_fields ''overview'' = Some (Some ''A desert planet.'')"
  by (simp_all add: dune_fields_def)

text \<open>The year column on strings of digits, and on a text that is none.\<close>

lemma integer_affinity_digits:
  "integer_affinity db ''2021'' = IntegerValue 2021"
  "integer_affinity db ''0021'' = IntegerValue 21"
  "integer_affinity db ''9223372036854775807'' = IntegerValue 9223372036854775807"
  "integer_affinity db ''9223372036854775808'' = numeric_affinity db ''9223372036854775808''"
  "integer_affinity db [] = numeric_affinity db []"
  "integer_affinity db ''20x1'' = numeric_affinity db ''20x1''"
  by (simp_all add: integer_affinity_def is_digit_def digits_value_def max_rowid_def)

text \<open>The row id at the largest possible id, with the stand-in draw, and below it.\<close>

lemma next_id_examples:
  "next_id example_sqlite [] = 1"
  "next_id example_sqlite four_films = 5"
  "next_id example_sqlite [film 1 ''Dune'' None None, film 9223372036854775807 ''Heat'' None None] = 2"
  by (simp_all add: next_id_def example_sqlite_def four_films_def film_def max_rowid_def)

text \<open>
  C4. When the provider's record has a title that is already in the table, the insert
  fails with \<open>IntegrityError\<close>, the view fails with it, and the table, hence the number of
  its rows, is unchanged.
\<close>

theorem duplicate_title_rejected:
  assumes "args_id req = Some movie_api_id" and "movie_api_id \<noteq> []"
    and "requests_get (MOVIE_DB_INFO_URL cfg @ ''/'' @ movie_api_id)
           [(''api_key'', MOVIE_DB_API_KEY cfg), (''language'', ''en-US'')] = Response status (Dict d)"
    and "d ''title'' = Some (Some t)" and "d ''release_date'' = Some (Some release_date)"
    and "d ''poster_path'' = Some poster_path" and "d ''overview'' = Some overview"
    and "t \<in> set (map title s)"
  shows "add_commit db s \<lparr>new_title = Some t, new_year = takeWhile (\<lambda>c. c \<noteq> CHR ''-'') release_date,
            new_img_url = MOVIE_DB_IMAGE_URL cfg @ format_value poster_path,
            new_description = overview\<rparr> = Inl IntegrityError \<and>
         fst (find_movie cfg requests_get db s req) = Inl IntegrityError \<and>
         fst (snd (find_movie cfg requests_get db s req)) = s \<and>
         length (fst (snd (find_movie cfg requests_get db s req))) = length s"
proof -
  let ?n = "\<lparr>new_title = Some t, new_year = takeWhile (\<lambda>c. c \<noteq> CHR ''-'') release_date,
            new_img_url = MOVIE_DB_IMAGE_URL cfg @ format_value poster_path,
            new_description = overview\<rparr>"
  have b: "build_movie cfg (Dict d) = Inr ?n"
    using assms(4-7) by (rule build_movie_strings)
  have a: "add_commit db s ?n = Inl IntegrityError"
    using assms(8) by (intro add_commit_duplicate[of _ t]) simp_all
  have "find_movie cfg requests_get db s req =
    (Inl IntegrityError, s, [(MOVIE_DB_INFO_URL cfg @ ''/'' @ movie_api_id,
       [(''api_key'', MOVIE_DB_API_KEY cfg), (''language'', ''en-US'')])])"
    using assms(1-3) a b by (simp add: find_movie_def response_json_def Let_def)
  with a show ?thesis by simp
qed

theorem duplicate_title_rejected_witness:
  "''Dune'' \<in> set (map title four_films) \<and>
   fst (find_movie (module_config ''key'') (provider 200 dune_detail) example_sqlite four_films
     (find_request (Some ''438631''))) = Inl IntegrityError \<and>
   fst (snd (find_movie (module_config ''key'') (provider 200 dune_detail) example_sqlite four_films
     (find_request (Some ''438631'')))) = four_films"
proof -
  have t: "''Dune'' \<in> set (map title four_films)"
    by (simp add: four_films_def film_def)
  have i: "args_id (find_request (Some ''438631'')) = Some ''438631''" and n: "''438631'' \<noteq> []"
    by (simp_all add: find_request_def)
  from duplicate_title_rejected [where s = four_films and cfg = "module_config ''key''"
      and requests_get = "provider 200 dune_detail" and d = dune_fields and db = example_sqlite,
      OF i n dune_detail_call dune_fields_values t] t
  show ?thesis by simp
qed

text \<open>
  C5, as the view has it. For a detail response whose title, release date, poster path and
  overview are strings, with a title new to the table, the view adds one row. Its year is
  the text of the release date before the first \<^verbatim>\<open>-\<close>, as the \<^verbatim>\<open>Integer\<close> column stores
  it: 2021 for \<^verbatim>\<open>2021-10-22\<close>. Its image URL is the image base followed by the poster path,
  with nothing put between or taken away. It has no rating, ranking or review.
\<close>

theorem find_movie_builds_record:
  assumes "args_id req = Some movie_api_id" and "movie_api_id \<noteq> []"
    and "requests_get (MOVIE_DB_INFO_URL cfg @ ''/'' @ movie_api_id)
           [(''api_key'', MOVIE_DB_API_KEY cfg), (''language'', ''en-US'')] = Response status (Dict d)"
    and "d ''title'' = Some (Some t)" and "d ''release_date'' = Some (Some release_date)"
    and "d ''poster_path'' = Some (Some poster_path)" and "d ''overview'' = Some (Some overview)"
    and "t \<notin> set (map title s)"
  shows "find_movie cfg requests_get db s req =
    (Inr (Some (RedirectRate (next_id db s))),
     insort_key movie_id
       \<lparr>movie_id = next_id db s, title = t,
        year = integer_affinity db (takeWhile (\<lambda>c. c \<noteq> CHR ''-'') release_date),
        description = overview, rating = None, ranking = None, review = None,
        img_url = MOVIE_DB_IMAGE_URL cfg @ poster_path\<rparr> s,
     [(MOVIE_DB_INFO_URL cfg @ ''/'' @ movie_api_id,
       [(''api_key'', MOVIE_DB_API_KEY cfg), (''language'', ''en-US'')])])"
proof -
  have b: "build_movie cfg (Dict d) =
    Inr \<lparr>new_title = Some t, new_year = takeWhile (\<lambda>c. c \<noteq> CHR ''-'') release_date,
         new_img_url = MOVIE_DB_IMAGE_URL cfg @ format_value (Some poster_path),
         new_description = Some overview\<rparr>"
    using assms(4-7) by (rule build_movie_strings)
  show ?thesis
    using assms(1-3,8) b
    by (simp add: find_movie_def response_json_def Let_def add_commit_def format_value_def)
qed

theorem find_movie_builds_record_witness:
  "''Dune'' \<notin> set (map title [film 2 ''Alien'' None None]) \<and>
   find_movie (module_config ''key'') (provider 200 dune_detail) example_sqlite
     [film 2 ''Alien'' None None] (find_request (Some ''438631'')) =
     (Inr (Some (RedirectRate 3)),
      [film 2 ''Alien'' None None,
       \<lparr>movie_id = 3, title = ''Dune'', year = IntegerValue 2021,
        description = ''A desert planet.'', rating = None, ranking = None, review = None,
        img_url = ''https://image.tmdb.org/t/p/w500/abc.jpg''\<rparr>],
      [(''https://api.themoviedb.org/3/movie/438631'',
        [(''api_key'', ''key''), (''language'', ''en-US'')])]) \<and>
   find_movie ((module_config ''key'')\<lparr>MOVIE_DB_IMAGE_URL := ''https://img/''\<rparr>)
     (provider 200 dune_detail) example_sqlite [] (find_request (Some ''438631'')) =
     (Inr (Some (RedirectRate 1)),
      [\<lparr>movie_id = 1, title = ''Dune'', year = IntegerValue 2021,
        description = ''A desert planet.'', rating = None, ranking = None, review = None,
        img_url = ''https://img//abc.jpg''\<rparr>],
      [(''https://api.themoviedb.org/3/movie/438631'',
        [(''api_key'', ''key''), (''language'', ''en-US'')])])"
proof -
  have t: "''Dune'' \<notin> set (map title [film 2 ''Alien'' None None])"
    and e: "''Dune'' \<notin> set (map title ([] :: rat store))"
    by (simp_all add: film_def)
  have i: "args_id (find_request (Some ''438631'')) = Some ''438631''" and n: "''438631'' \<noteq> []"
    by (simp_all add: find_request_def)
  have y: "takeWhile (\<lambda>c. c \<noteq> CHR ''-'') ''2021-10-22'' = ''2021''"
    by simp
  from find_movie_builds_record [where s = "[film 2 ''Alien'' None None]"
      and cfg = "module_config ''key''" and db = example_sqlite
      and requests_get = "provider 200 dune_detail" and d = dune_fields,
      OF i n dune_detail_call dune_fields_values t]
    find_movie_builds_record [where s = "[] :: rat store"
      and cfg = "(module_config ''key'')\<lparr>MOVIE_DB_IMAGE_URL := ''https://img/''\<rparr>"
      and db = example_sqlite
      and requests_get = "provider 200 dune_detail" and d = dune_fields,
      OF i n dune_detail_call dune_fields_values e] t
  show ?thesis
    unfolding y integer_affinity_digits
    by (simp add: module_config_def next_id_def film_def max_rowid_def)
qed

text \<open>
  The image base is a constant of the module; the claim's example supposes another one.
  With the image base \<^verbatim>\<open>https://img/\<close> and the poster path \<^verbatim>\<open>/abc.jpg\<close> the image URL is
  \<^verbatim>\<open>https://img//abc.jpg\<close>, with both slashes, and not \<^verbatim>\<open>https://img/abc.jpg\<close>. The year is
  2021, as the claim has it.
\<close>

theorem find_movie_img_url_counterexample:
  "map img_url (fst (snd (find_movie
      ((module_config ''key'')\<lparr>MOVIE_DB_IMAGE_URL := ''https://img/''\<rparr>)
      (provider 200 dune_detail) example_sqlite [] (find_request (Some ''438631''))))) =
     [''https://img//abc.jpg''] \<and>
   map img_url (fst (snd (find_movie
      ((module_config ''key'')\<lparr>MOVIE_DB_IMAGE_URL := ''https://img/''\<rparr>)
      (provider 200 dune_detail) example_sqlite [] (find_request (Some ''438631''))))) \<noteq>
     [''https://img/abc.jpg''] \<and>
   map year (fst (snd (find_movie
      ((module_config ''key'')\<lparr>MOVIE_DB_IMAGE_URL := ''https://img/''\<rparr>)
      (provider 200 dune_detail) example_sqlite [] (find_request (Some ''438631''))))) =
     [IntegerValue 2021]"
  by (simp add: find_movie_def find_request_def provider_def dune_detail_def dune_fields_def
      module_config_def response_json_def build_movie_def getitem_def split_value_def
      first_item_def format_value_def add_commit_def next_id_def Let_def
      integer_affinity_def is_digit_def digits_value_def max_rowid_def)

text \<open>
  C10. With a missing or empty \<^verbatim>\<open>id\<close>, \<^verbatim>\<open>find_movie\<close> calls no provider, leaves the table
  unchanged, raises nothing and returns no response.
\<close>

theorem find_movie_without_id:
  assumes "args_id req = None \<or> args_id req = Some ''''"
  shows "find_movie cfg requests_get db s req = (Inr None, s, [])"
  using assms by (auto simp: find_movie_def)

theorem find_movie_without_id_witness:
  "(args_id (find_request None) = None \<or> args_id (find_request None) = Some []) \<and>
   find_movie (module_config ''key'') (provider 200 dune_detail) example_sqlite four_films
     (find_request None) = (Inr None, four_films, []) \<and>
   (args_id (find_request (Some [])) = None \<or> args_id (find_request (Some [])) = Some []) \<and>
   find_movie (module_config ''key'') (provider 200 dune_detail) example_sqlite four_films
     (find_request (Some [])) = (Inr None, four_films, [])"
proof -
  have a: "args_id (find_request None) = None \<or> args_id (find_request None) = Some []"
    and b: "args_id (find_request (Some [])) = None \<or> args_id (find_request (Some [])) = Some []"
    by (simp_all add: find_request_def)
  from find_movie_without_id [OF a] find_movie_without_id [OF b] a b show ?thesis by blast
qed

end
